theory Spec2Isabelle
  imports Complex_Main "HOL-Library.Word"
begin

section \<open>Python values used by TextToWavCLI.py\<close>

text \<open>
  The program is a single Python module. Its functions are embedded as HOL functions
  over the following values.
  \<^item> A Python \<open>str\<close> read from the source file is a list of Unicode code points
    (\<open>py_str\<close>). The strings of binary digits that \<open>bin\<close> produces hold only the
    characters 0 and 1 and are written as HOL strings.
  \<^item> A \<open>bytes\<close> or \<open>bytearray\<close> object holds bytes, \<open>8 word\<close>.
  \<^item> Python integers are unbounded: \<open>int\<close>, and \<open>nat\<close> where the value is a length, a
    code point or the value of a run of digits.
  \<^item> An exception that leaves a function is the \<open>Inl\<close> branch of its result.
\<close>

datatype py_error = ZeroDivisionError | ValueError | UnicodeEncodeError | KeyError | WaveError

type_synonym py_str = "nat list"
type_synonym byte = "8 word"
type_synonym bytearray = "byte list"

definition ustr :: "string \<Rightarrow> py_str" where
  \<comment> \<open>A literal: the code points of an ASCII string.\<close>
  "ustr cs = map of_char cs"

subsection \<open>Bytearray objects\<close>

text \<open>
  \<open>bytearray\<close> objects are mutable and the module keeps two of them in global variables,
  so the embedding has a store: the list of all bytearray objects created so far, an
  object's reference being its position. \<open>bytearray(x)\<close> creates a new object holding a
  copy; \<open>a.extend(b)\<close> changes the object \<open>a\<close> refers to, in place.
\<close>

type_synonym ref = nat
type_synonym store = "bytearray list"

definition new_bytearray :: "store \<Rightarrow> bytearray \<Rightarrow> store \<times> ref" where
  "new_bytearray s v = (s @ [v], length s)"

definition extend_bytearray :: "store \<Rightarrow> ref \<Rightarrow> bytearray \<Rightarrow> store" where
  "extend_bytearray s r v = s[r := s ! r @ v]"

definition bytearray_of_int :: "int \<Rightarrow> py_error + bytearray" where
  \<comment> \<open>\<open>bytearray([x])\<close>: a byte must be in \<open>range(0, 256)\<close>.\<close>
  "bytearray_of_int x = (if 0 \<le> x \<and> x < 256 then Inr [word_of_int x] else Inl ValueError)"

definition repeat :: "'a list \<Rightarrow> int \<Rightarrow> 'a list" where
  \<comment> \<open>\<open>xs * n\<close> on a sequence: empty when \<open>n\<close> is not positive.\<close>
  "repeat xs n = concat (replicate (nat n) xs)"

definition int_of_quotient :: "int \<Rightarrow> int \<Rightarrow> int" where
  \<comment> \<open>\<open>int(a / b)\<close> for \<open>b \<noteq> 0\<close>: the quotient, truncated towards zero. The quotient is
     taken exactly; Python's float quotient truncates to the same integer for all
     operands below \<open>2 ^ 52\<close> in absolute value.\<close>
  "int_of_quotient a b = sgn a * sgn b * (\<bar>a\<bar> div \<bar>b\<bar>)"

subsection \<open>Strings of binary digits\<close>

fun bin_str :: "nat \<Rightarrow> string" where
  \<comment> \<open>\<open>bin(n)[2:]\<close> for \<open>n \<ge> 0\<close>: the binary digits of \<open>n\<close> with no leading zero.\<close>
  "bin_str n =
     (if n < 2 then [if n = 0 then CHR ''0'' else CHR ''1'']
      else bin_str (n div 2) @ [if n mod 2 = 0 then CHR ''0'' else CHR ''1''])"

declare bin_str.simps [simp del]

definition zfill :: "nat \<Rightarrow> string \<Rightarrow> string" where
  \<comment> \<open>\<open>s.zfill(width)\<close>: zeros on the left up to \<open>width\<close> characters, after a sign if
     there is one; a string that is long enough is returned as it is.\<close>
  "zfill width s =
     (if width \<le> length s then s
      else case s of
             [] \<Rightarrow> replicate width CHR ''0''
           | c # cs \<Rightarrow>
               if c = CHR ''+'' \<or> c = CHR ''-''
               then c # replicate (width - length s) CHR ''0'' @ cs
               else replicate (width - length s) CHR ''0'' @ s)"

definition int_of_char :: "char \<Rightarrow> py_error + int" where
  \<comment> \<open>\<open>int(bit)\<close> for a string of one character: its value when it is a decimal digit,
     \<open>ValueError\<close> otherwise.\<close>
  "int_of_char c =
     (if 48 \<le> (of_char c :: nat) \<and> (of_char c :: nat) \<le> 57
      then Inr (int (of_char c) - 48) else Inl ValueError)"

subsection \<open>Unicode text\<close>

text \<open>
  The regular expression class \<open>\d\<close>, \<open>int\<close> and \<open>str.lstrip\<close> consult the interpreter's
  Unicode character database: which code points are decimal digits, with which value,
  and which are whitespace. The database is not part of the repository; the embedding
  takes it as a parameter. \<open>ascii_tables\<close> is its restriction to ASCII.
\<close>

record unicode_tables =
  decimal :: "nat \<Rightarrow> nat option"
  isspace :: "nat \<Rightarrow> bool"

definition ascii_tables :: unicode_tables where
  "ascii_tables =
     \<lparr>decimal = (\<lambda>c. if 48 \<le> c \<and> c \<le> 57 then Some (c - 48) else None),
      isspace = (\<lambda>c. (9 \<le> c \<and> c \<le> 13) \<or> (28 \<le> c \<and> c \<le> 32))\<rparr>"

definition isdecimal :: "unicode_tables \<Rightarrow> nat \<Rightarrow> bool" where
  "isdecimal db c = (decimal db c \<noteq> None)"

definition int_of_str :: "unicode_tables \<Rightarrow> py_str \<Rightarrow> nat" where
  \<comment> \<open>\<open>int(number_str)\<close> for a run of decimal digits (the only strings it is applied
     to). The interpreter's optional limit on the number of digits is not modelled.\<close>
  "int_of_str db number_str =
     foldl (\<lambda>acc c. 10 * acc + (case decimal db c of Some d \<Rightarrow> d | None \<Rightarrow> 0)) 0 number_str"

definition lstrip :: "unicode_tables \<Rightarrow> py_str \<Rightarrow> py_str" where
  "lstrip db text = dropWhile (isspace db) text"

fun split :: "'a \<Rightarrow> 'a list \<Rightarrow> 'a list list" where
  \<comment> \<open>\<open>text.split(sep)\<close> for a separator of one character.\<close>
  "split sep [] = [[]]"
| "split sep (c # cs) =
     (if c = sep then [] # split sep cs
      else (c # hd (split sep cs)) # tl (split sep cs))"

definition utf8_char :: "nat \<Rightarrow> py_error + byte list" where
  \<comment> \<open>The UTF-8 bytes of one code point. Surrogates cannot be encoded; a number from
     \<open>0x110000\<close> on is no code point and gets the same error.\<close>
  "utf8_char c =
     (if c < 0x80 then Inr [of_nat c]
      else if c < 0x800 then Inr [of_nat (0xC0 + c div 64), of_nat (0x80 + c mod 64)]
      else if 0xD800 \<le> c \<and> c \<le> 0xDFFF then Inl UnicodeEncodeError
      else if c < 0x10000 then
        Inr [of_nat (0xE0 + c div 4096), of_nat (0x80 + c div 64 mod 64), of_nat (0x80 + c mod 64)]
      else if c < 0x110000 then
        Inr [of_nat (0xF0 + c div 262144), of_nat (0x80 + c div 4096 mod 64),
             of_nat (0x80 + c div 64 mod 64), of_nat (0x80 + c mod 64)]
      else Inl UnicodeEncodeError)"

fun encode_utf8 :: "py_str \<Rightarrow> py_error + byte list" where
  \<comment> \<open>\<open>code.encode('utf-8')\<close>\<close>
  "encode_utf8 [] = Inr []"
| "encode_utf8 (c # cs) =
     (case utf8_char c of
        Inl e \<Rightarrow> Inl e
      | Inr bs \<Rightarrow> (case encode_utf8 cs of Inl e \<Rightarrow> Inl e | Inr rest \<Rightarrow> Inr (bs @ rest)))"

section \<open>The module's global parameters and pulses\<close>

record settings =
  FRAMERATE :: int
  ONES_FREQ :: int
  ZERO_FREQ :: int
  AMPLITUDE :: int
  CENTER :: int
  LEADER :: int
  PARITY :: int
  STARTBIT :: int

record globals = settings +
  one_pulse :: ref
  zero_pulse :: ref

definition default_settings :: settings where
  "default_settings =
     \<lparr>FRAMERATE = 22050, ONES_FREQ = 2400, ZERO_FREQ = 800, AMPLITUDE = 225,
      CENTER = 128, LEADER = 14, PARITY = 0, STARTBIT = 0\<rparr>"

definition make_square_wave :: "'a settings_scheme \<Rightarrow> int \<Rightarrow> int \<Rightarrow> py_error + bytearray" where
  \<comment> \<open>\<open>n = int(framerate/freq/2)\<close>, then the two half cycles. \<open>CENTER\<close> and \<open>AMPLITUDE\<close>
     are read from the module's globals.\<close>
  "make_square_wave g freq framerate =
     (if freq = 0 then Inl ZeroDivisionError
      else
        let n = int_of_quotient framerate (freq * 2) in
        case bytearray_of_int (CENTER g - AMPLITUDE g div 2) of
          Inl e \<Rightarrow> Inl e
        | Inr lo \<Rightarrow>
            (case bytearray_of_int (CENTER g + AMPLITUDE g div 2) of
               Inl e \<Rightarrow> Inl e
             | Inr hi \<Rightarrow> Inr (repeat lo n @ repeat hi n)))"

definition import_module :: "py_error + globals \<times> store" where
  \<comment> \<open>The statements the module runs when it is loaded: the parameters get their
     defaults and the two pulses are made from them, once.\<close>
  "import_module =
     (let d = default_settings in
      case make_square_wave d (ONES_FREQ d) (FRAMERATE d) of
        Inl e \<Rightarrow> Inl e
      | Inr one \<Rightarrow>
          (case new_bytearray [] one of
             (s1, r1) \<Rightarrow>
               (case make_square_wave d (ZERO_FREQ d) (FRAMERATE d) of
                  Inl e \<Rightarrow> Inl e
                | Inr zero \<Rightarrow>
                    (case new_bytearray s1 zero of
                       (s2, r2) \<Rightarrow>
                         Inr (\<lparr>FRAMERATE = FRAMERATE d, ONES_FREQ = ONES_FREQ d,
                               ZERO_FREQ = ZERO_FREQ d, AMPLITUDE = AMPLITUDE d,
                               CENTER = CENTER d, LEADER = LEADER d, PARITY = PARITY d,
                               STARTBIT = STARTBIT d, one_pulse = r1, zero_pulse = r2\<rparr>, s2)))))"

definition is_even :: "int \<Rightarrow> bool" where
  "is_even number = (number mod 2 = 0)"

section \<open>RecordBuilder: Extract_Number_String and Create_BinData\<close>

definition re_match :: "unicode_tables \<Rightarrow> py_str \<Rightarrow> (py_str \<times> py_str) option" where
  \<comment> \<open>\<open>re.match(r"^(\d+)(.*)", text)\<close> and its two groups: the longest run of decimal
     digits at the start, which must not be empty, and the rest up to the first
     newline (\<open>.\<close> matches every character but the newline).\<close>
  "re_match db text =
     (let number_str = takeWhile (isdecimal db) text in
      if number_str = [] then None
      else Some (number_str, takeWhile (\<lambda>c. c \<noteq> 10) (dropWhile (isdecimal db) text)))"

definition Extract_Number_String :: "unicode_tables \<Rightarrow> py_str \<Rightarrow> nat option \<times> py_str" where
  "Extract_Number_String db text =
     (case re_match db text of
        Some (number_str, remaining_str) \<Rightarrow>
          (Some (int_of_str db number_str), lstrip db remaining_str)
      | None \<Rightarrow> (None, text))"

fun bytes_loop :: "byte list \<Rightarrow> string list \<Rightarrow> string list" where
  \<comment> \<open>\<open>for byte in byte_code: code_array.append(bin(byte)[2:].zfill(8))\<close>\<close>
  "bytes_loop [] code_array = code_array"
| "bytes_loop (byte # rest) code_array =
     bytes_loop rest (code_array @ [zfill 8 (bin_str (unat byte))])"

fun lines_loop ::
  "unicode_tables \<Rightarrow> (nat \<times> py_str) list \<Rightarrow> nat list \<Rightarrow> string list \<Rightarrow> py_error + string list"
where
  \<comment> \<open>\<open>for i in range(len(indexed_data))\<close>, on the indices still to visit; the
     dictionary \<open>indexed_data\<close> is an association list.\<close>
  "lines_loop db indexed_data [] code_array = Inr code_array"
| "lines_loop db indexed_data (i # rest) code_array =
     (case map_of indexed_data i of
        None \<Rightarrow> Inl KeyError
      | Some line \<Rightarrow>
          (case Extract_Number_String db line of
             (None, code) \<Rightarrow> lines_loop db indexed_data rest code_array
           | (Some label, code) \<Rightarrow>
               (let code = code @ [13] in
                case encode_utf8 code of
                  Inl e \<Rightarrow> Inl e
                | Inr byte_code \<Rightarrow>
                    (let label_byte = zfill 16 (bin_str label);
                         code_array = code_array @ [take 8 label_byte];
                         code_array = code_array @ [drop 8 label_byte]
                     in lines_loop db indexed_data rest (bytes_loop byte_code code_array)))))"

definition Create_BinData :: "unicode_tables \<Rightarrow> py_str \<Rightarrow> py_error + string list" where
  \<comment> \<open>From \<open>text_content\<close>, the decoded text that \<open>file.read()\<close> returns, on. Opening and
     decoding the file belong to the file system and are not modelled.\<close>
  "Create_BinData db text_content =
     (let text_segment = split 10 text_content;
          indexed_data = enumerate 0 text_segment
      in case lines_loop db indexed_data [0..<length indexed_data] [] of
           Inl e \<Rightarrow> Inl e
         | Inr code_array \<Rightarrow>
             (let byte_size = length code_array;
                  code_array = code_array @ [zfill 8 (bin_str 0)];
                  start = zfill 16 (bin_str (byte_size + 256));
                  start_array = [] @ [take 8 start];
                  start_array = start_array @ [drop 8 start];
                  binary_array = ([] @ start_array) @ code_array
              in Inr binary_array))"

section \<open>FrameEncoder: Encode_Data\<close>

fun bits_loop :: "globals \<Rightarrow> ref \<Rightarrow> string \<Rightarrow> store \<times> int \<Rightarrow> py_error + store \<times> int" where
  \<comment> \<open>\<open>for bit in bytes\<close> (the character \<open>bit\<close> is \<open>b\<close> here): the state is the store,
     where \<open>encoded\<close> grows, and \<open>p\<close>.\<close>
  "bits_loop g encoded [] (s, p) = Inr (s, p)"
| "bits_loop g encoded (b # bits) (s, p) =
     (case int_of_char b of
        Inl e \<Rightarrow> Inl e
      | Inr v \<Rightarrow>
          if v = 1 then bits_loop g encoded bits (extend_bytearray s encoded (s ! one_pulse g), p + 1)
          else bits_loop g encoded bits (extend_bytearray s encoded (s ! zero_pulse g), p))"

definition Encode_Data :: "globals \<Rightarrow> store \<Rightarrow> string \<Rightarrow> py_error + store \<times> ref" where
  \<comment> \<open>Returns the store and the reference of the new bytearray \<open>encoded\<close>.\<close>
  "Encode_Data g s bytes =
     (case (if STARTBIT g = 0 then new_bytearray s (s ! zero_pulse g)
            else new_bytearray s (s ! one_pulse g)) of
        (s, encoded) \<Rightarrow>
          (case bits_loop g encoded bytes (s, 0) of
             Inl e \<Rightarrow> Inl e
           | Inr (s, p) \<Rightarrow>
               Inr (if PARITY g = 0 then
                      (if p = 0 \<or> is_even p then extend_bytearray s encoded (s ! one_pulse g)
                       else extend_bytearray s encoded (s ! zero_pulse g))
                    else
                      (if of_bool (is_even p) = (0 :: int) then extend_bytearray s encoded (s ! one_pulse g)
                       else extend_bytearray s encoded (s ! zero_pulse g)),
                    encoded)))"

section \<open>StreamAssembler: Write_Wav\<close>

text \<open>
  The \<open>wave\<close> writer is modelled by what it has been given: its three parameters and
  the frames written so far. The container header it writes on \<open>close\<close> is not.
\<close>

record wave_write =
  nchannels :: int
  sampwidth :: int
  framerate :: int
  frames :: bytearray

definition writeframes :: "wave_write \<Rightarrow> bytearray \<Rightarrow> wave_write" where
  "writeframes w data = w\<lparr>frames := frames w @ data\<rparr>"

fun data_loop :: "globals \<Rightarrow> string list \<Rightarrow> store \<times> wave_write \<Rightarrow> py_error + store \<times> wave_write" where
  \<comment> \<open>\<open>for byte in Binary_Data: w.writeframes(Encode_Data(byte))\<close>\<close>
  "data_loop g [] (s, w) = Inr (s, w)"
| "data_loop g (byte # rest) (s, w) =
     (case Encode_Data g s byte of
        Inl e \<Rightarrow> Inl e
      | Inr (s', encoded) \<Rightarrow> data_loop g rest (s', writeframes w (s' ! encoded)))"

fun trailer_loop :: "globals \<Rightarrow> store \<Rightarrow> nat list \<Rightarrow> wave_write \<Rightarrow> wave_write" where
  \<comment> \<open>\<open>for x in range(3): w.writeframes(zero_pulse)\<close>\<close>
  "trailer_loop g s [] w = w"
| "trailer_loop g s (x # rest) w = trailer_loop g s rest (writeframes w (s ! zero_pulse g))"

definition Write_Wav :: "globals \<Rightarrow> store \<Rightarrow> string list \<Rightarrow> py_error + store \<times> wave_write" where
  \<comment> \<open>Returns the store and the writer as it is when it is closed. \<open>setframerate\<close>
     refuses a rate that is not positive; the leader count divides by the length of
     the one pulse.\<close>
  "Write_Wav g s Binary_Data =
     (if FRAMERATE g \<le> 0 then Inl WaveError
      else if length (s ! one_pulse g) = 0 then Inl ZeroDivisionError
      else
        let w = \<lparr>nchannels = 1, sampwidth = 1, framerate = FRAMERATE g, frames = []\<rparr>;
            w = writeframes w
                  (repeat (s ! one_pulse g)
                     (int_of_quotient (FRAMERATE g) (int (length (s ! one_pulse g))) * LEADER g))
        in case data_loop g Binary_Data (s, w) of
             Inl e \<Rightarrow> Inl e
           | Inr (s', w') \<Rightarrow> Inr (s', trailer_loop g s' [0..<3] w'))"

section \<open>The main program\<close>




section \<open>The notions of the specification\<close>



definition is_byte_group :: "string \<Rightarrow> bool" where
  "is_byte_group bs = (length bs = 8 \<and> list_all (\<lambda>c. c = CHR ''0'' \<or> c = CHR ''1'') bs)"

definition group_value :: "string \<Rightarrow> nat" where
  \<comment> \<open>The number a string of binary digits stands for, most significant digit first.\<close>
  "group_value bs = foldl (\<lambda>v c. 2 * v + (if c = CHR ''1'' then 1 else 0)) 0 bs"

definition has_label :: "unicode_tables \<Rightarrow> py_str \<Rightarrow> bool" where
  \<comment> \<open>The line begins with a run of decimal digits.\<close>
  "has_label db line = (takeWhile (isdecimal db) line \<noteq> [])"

definition spec_record :: "unicode_tables \<Rightarrow> py_str \<Rightarrow> (nat \<times> py_str) option" where
  \<comment> \<open>Record: the label is the value of the leading run of digits; the body is the
     remainder of the line, left-trimmed, with a carriage return appended.\<close>
  "spec_record db line =
     (if has_label db line
      then Some (int_of_str db (takeWhile (isdecimal db) line),
                 dropWhile (isspace db) (dropWhile (isdecimal db) line) @ [13])
      else None)"


fun join_lines :: "py_str list \<Rightarrow> py_str" where
  \<comment> \<open>The text whose lines are the given ones.\<close>
  "join_lines [] = []"
| "join_lines [l] = l"
| "join_lines (l # ls) = l @ [10] @ join_lines ls"

definition pulse_of :: "globals \<Rightarrow> store \<Rightarrow> bool \<Rightarrow> bytearray" where
  \<comment> \<open>The cached pulse of a bit: the one pulse for 1, the zero pulse for 0.\<close>
  "pulse_of g s b = (if b then s ! one_pulse g else s ! zero_pulse g)"

definition ones_count :: "string \<Rightarrow> nat" where
  \<comment> \<open>The number of data bits equal to 1.\<close>
  "ones_count bs = length (filter (\<lambda>c. c = CHR ''1'') bs)"

definition spec_parity_bit :: "globals \<Rightarrow> string \<Rightarrow> bool" where
  \<comment> \<open>The parity bit: in odd mode (\<open>PARITY = 0\<close>) 1 when the count of 1 bits is even, in
     even mode 1 when the count is odd.\<close>
  "spec_parity_bit g bs = (if PARITY g = 0 then even (ones_count bs) else odd (ones_count bs))"

definition spec_frame :: "globals \<Rightarrow> store \<Rightarrow> string \<Rightarrow> bytearray list" where
  \<comment> \<open>The pulses of one frame: the start pulse, a pulse per data bit in order, the
     parity pulse; no stop pulse.\<close>
  "spec_frame g s bs =
     [pulse_of g s (STARTBIT g \<noteq> 0)] @ map (\<lambda>c. pulse_of g s (c = CHR ''1'')) bs
       @ [pulse_of g s (spec_parity_bit g bs)]"

section \<open>Auxiliary functions\<close>


definition line_groups :: "unicode_tables \<Rightarrow> py_str \<Rightarrow> py_error + string list" where
  \<comment> \<open>What one round of the loop over the lines appends to \<open>code_array\<close>.\<close>
  "line_groups db line =
     (case Extract_Number_String db line of
        (None, code) \<Rightarrow> Inr []
      | (Some label, code) \<Rightarrow>
          (case encode_utf8 (code @ [13]) of
             Inl e \<Rightarrow> Inl e
           | Inr byte_code \<Rightarrow>
               Inr ([take 8 (zfill 16 (bin_str label)), drop 8 (zfill 16 (bin_str label))]
                    @ map (\<lambda>byte. zfill 8 (bin_str (unat byte))) byte_code)))"

definition module_globals :: globals where
  \<comment> \<open>The globals after the module is loaded (see \<open>import_module_eq\<close>).\<close>
  "module_globals =
     \<lparr>FRAMERATE = 22050, ONES_FREQ = 2400, ZERO_FREQ = 800, AMPLITUDE = 225,
      CENTER = 128, LEADER = 14, PARITY = 0, STARTBIT = 0, one_pulse = 0, zero_pulse = 1\<rparr>"

definition module_store :: store where
  \<comment> \<open>The store after the module is loaded: the one pulse and the zero pulse.\<close>
  "module_store = [replicate 4 16 @ replicate 4 240, replicate 13 16 @ replicate 13 240]"

definition encoded_frame :: "globals \<Rightarrow> store \<Rightarrow> string \<Rightarrow> bytearray" where
  \<comment> \<open>The contents of the bytearray that \<open>Encode_Data\<close> returns.\<close>
  "encoded_frame g s bytes = (case Encode_Data g s bytes of Inl e \<Rightarrow> [] | Inr (s', encoded) \<Rightarrow> s' ! encoded)"

fun lines_result :: "unicode_tables \<Rightarrow> py_str list \<Rightarrow> string list \<Rightarrow> py_error + string list" where
  \<comment> \<open>The loop over the lines, on the list of lines itself.\<close>
  "lines_result db [] code_array = Inr code_array"
| "lines_result db (line # rest) code_array =
     (case line_groups db line of
        Inl e \<Rightarrow> Inl e
      | Inr gs \<Rightarrow> lines_result db rest (code_array @ gs))"

section \<open>Binary digit strings\<close>









lemma group_value_zeros: "group_value (replicate k CHR ''0'' @ bs) = group_value bs"
proof -
  have "foldl (\<lambda>v c. 2 * v + (if c = CHR ''1'' then 1 else 0)) (0::nat) (replicate k CHR ''0'') = 0"
    by (induction k) simp_all
  then show ?thesis by (simp add: group_value_def)
qed


subsection \<open>Digits of a fixed width\<close>














section \<open>The lines of a text and the loop over them\<close>

lemma split_not_Nil: "split sep xs \<noteq> []"
  by (induction xs) auto

lemma split_no_sep: "l \<in> set (split sep xs) \<Longrightarrow> sep \<notin> set l"
proof (induction xs arbitrary: l)
  case Nil
  then show ?case by simp
next
  case (Cons c cs)
  obtain h t where ht: "split sep cs = h # t"
    using split_not_Nil [of sep cs] by (cases "split sep cs") auto
  show ?case
  proof (cases "c = sep")
    case True
    with Cons show ?thesis by auto
  next
    case False
    with Cons.prems ht have "l = c # h \<or> l \<in> set t" by simp
    moreover have "sep \<notin> set h" using Cons.IH [of h] ht by simp
    moreover have "l \<in> set t \<Longrightarrow> sep \<notin> set l" using Cons.IH [of l] ht by simp
    ultimately show ?thesis using False by auto
  qed
qed


lemma split_no_sep_id: "sep \<notin> set l \<Longrightarrow> split sep l = [l]"
  by (induction l) auto

lemma split_append_sep: "sep \<notin> set l \<Longrightarrow> split sep (l @ sep # rest) = l # split sep rest"
  by (induction l) auto

lemma split_join_lines:
  "ls \<noteq> [] \<Longrightarrow> \<forall>l\<in>set ls. 10 \<notin> set l \<Longrightarrow> split 10 (join_lines ls) = ls"
proof (induction ls rule: join_lines.induct)
  case 1
  then show ?case by simp
next
  case (2 l)
  then show ?case by (simp add: split_no_sep_id)
next
  case (3 l v va)
  then show ?case by (simp add: split_append_sep)
qed

lemma map_of_enumerate: "i < length xs \<Longrightarrow> map_of (enumerate n xs) (n + i) = Some (xs ! i)"
proof (induction xs arbitrary: n i)
  case Nil
  then show ?case by simp
next
  case (Cons x xs)
  show ?case
  proof (cases i)
    case 0
    then show ?thesis by simp
  next
    case (Suc j)
    with Cons.prems have "j < length xs" by simp
    then have "map_of (enumerate (Suc n) xs) (Suc n + j) = Some (xs ! j)" by (rule Cons.IH)
    with Suc show ?thesis by simp
  qed
qed

lemma bytes_loop_eq:
  "bytes_loop byte_code code_array = code_array @ map (\<lambda>byte. zfill 8 (bin_str (unat byte))) byte_code"
  by (induction byte_code arbitrary: code_array) simp_all

lemma lines_loop_step:
  "map_of indexed_data i = Some line \<Longrightarrow>
   lines_loop db indexed_data (i # rest) code_array =
     (case line_groups db line of
        Inl e \<Rightarrow> Inl e
      | Inr gs \<Rightarrow> lines_loop db indexed_data rest (code_array @ gs))"
  by (simp add: line_groups_def bytes_loop_eq Let_def split: prod.splits option.splits sum.splits)

lemma lines_loop_enumerate:
  "lines_loop db (enumerate 0 ls) [k..<length ls] code_array = lines_result db (drop k ls) code_array"
proof (induction "length ls - k" arbitrary: k code_array)
  case 0
  then show ?case by simp
next
  case (Suc m)
  then have k: "k < length ls" by simp
  have "map_of (enumerate 0 ls) k = Some (ls ! k)"
    using map_of_enumerate [OF k, of 0] by simp
  then have step: "lines_loop db (enumerate 0 ls) (k # [Suc k..<length ls]) code_array =
      (case line_groups db (ls ! k) of
         Inl e \<Rightarrow> Inl e
       | Inr gs \<Rightarrow> lines_loop db (enumerate 0 ls) [Suc k..<length ls] (code_array @ gs))"
    by (rule lines_loop_step)
  have "m = length ls - Suc k" using Suc.hyps(2) by simp
  then have IH: "lines_loop db (enumerate 0 ls) [Suc k..<length ls] acc
      = lines_result db (drop (Suc k) ls) acc" for acc
    by (rule Suc.hyps(1))
  have "drop k ls = ls ! k # drop (Suc k) ls" using k by (simp add: Cons_nth_drop_Suc)
  moreover have "[k..<length ls] = k # [Suc k..<length ls]" using k by (simp add: upt_conv_Cons)
  ultimately show ?case using step by (simp add: IH split: sum.splits)
qed

lemma Create_BinData_lines:
  "Create_BinData db text =
     (case lines_result db (split 10 text) [] of
        Inl e \<Rightarrow> Inl e
      | Inr code_array \<Rightarrow>
          Inr ([take 8 (zfill 16 (bin_str (length code_array + 256))),
                drop 8 (zfill 16 (bin_str (length code_array + 256)))]
               @ code_array @ [zfill 8 (bin_str 0)]))"
  using lines_loop_enumerate [of db "split 10 text" 0 "[]"]
  by (simp add: Create_BinData_def Let_def split: sum.splits)

section \<open>The result of the record builder\<close>

lemma Extract_unlabelled: "\<not> has_label db line \<Longrightarrow> Extract_Number_String db line = (None, line)"
  by (simp add: Extract_Number_String_def re_match_def has_label_def)


lemma line_groups_unlabelled: "\<not> has_label db line \<Longrightarrow> line_groups db line = Inr []"
  by (simp add: line_groups_def Extract_unlabelled)










lemma zfill8_zero: "zfill 8 (bin_str 0) = ''00000000''"
  by code_simp


section \<open>Lines without a label\<close>

lemma lines_result_filter:
  "lines_result db (filter (has_label db) ls) code_array = lines_result db ls code_array"
  by (induction ls arbitrary: code_array) (simp_all add: line_groups_unlabelled split: sum.splits)

lemma has_label_Nil: "\<not> has_label db []"
  by (simp add: has_label_def)

lemma lines_result_join_filter:
  assumes "\<forall>l\<in>set ls. 10 \<notin> set l"
  shows "lines_result db (split 10 (join_lines (filter (has_label db) ls))) [] = lines_result db ls []"
proof (cases "filter (has_label db) ls = []")
  case True
  then have "lines_result db (filter (has_label db) ls) [] = Inr []" by simp
  then have "lines_result db ls [] = Inr []" by (simp only: lines_result_filter)
  with True show ?thesis by (simp add: line_groups_unlabelled has_label_Nil)
next
  case False
  moreover have "\<forall>l\<in>set (filter (has_label db) ls). 10 \<notin> set l" using assms by simp
  ultimately have "split 10 (join_lines (filter (has_label db) ls)) = filter (has_label db) ls"
    by (rule split_join_lines)
  then show ?thesis by (simp only: lines_result_filter)
qed

lemma Create_BinData_no_labels:
  assumes "list_all (\<lambda>l. \<not> has_label db l) ls"
  shows "lines_result db ls code_array = Inr code_array"
  using assms by (induction ls) (simp_all add: line_groups_unlabelled)

lemma header_256:
  "take 8 (zfill 16 (bin_str 256)) = ''00000001''" "drop 8 (zfill 16 (bin_str 256)) = ''00000000''"
  by code_simp+

text \<open>
  Claim C7. A line that does not begin with a decimal digit gives no Record: the parser
  returns no label for it. Such lines contribute no ByteGroup and do not change the size
  header: the record builder returns for a text what it returns for the text without
  them. A text with no labelled line yields the two header ByteGroups, which decode to
  256, and the terminator ByteGroup, and nothing else.
\<close>

theorem unlabelled_lines_contribute_nothing:
  "(\<not> has_label db line \<longrightarrow>
      Extract_Number_String db line = (None, line) \<and> spec_record db line = None) \<and>
   Create_BinData db text =
     Create_BinData db (join_lines (filter (has_label db) (split 10 text))) \<and>
   (list_all (\<lambda>l. \<not> has_label db l) (split 10 text) \<longrightarrow>
      Create_BinData db text = Inr [''00000001'', ''00000000'', ''00000000''] \<and>
      256 * group_value ''00000001'' + group_value ''00000000'' = 256 + 0)"
proof (intro conjI impI)
  assume "\<not> has_label db line"
  then show "Extract_Number_String db line = (None, line)" by (rule Extract_unlabelled)
next
  assume "\<not> has_label db line"
  then show "spec_record db line = None" by (simp add: spec_record_def)
next
  have "\<forall>l\<in>set (split 10 text). 10 \<notin> set l" by (auto dest: split_no_sep)
  then have "lines_result db (split 10 (join_lines (filter (has_label db) (split 10 text)))) []
      = lines_result db (split 10 text) []"
    by (rule lines_result_join_filter)
  then show "Create_BinData db text =
      Create_BinData db (join_lines (filter (has_label db) (split 10 text)))"
    by (simp only: Create_BinData_lines)
next
  assume "list_all (\<lambda>l. \<not> has_label db l) (split 10 text)"
  then have "lines_result db (split 10 text) [] = Inr []" by (rule Create_BinData_no_labels)
  then show "Create_BinData db text = Inr [''00000001'', ''00000000'', ''00000000'']"
    by (simp add: Create_BinData_lines header_256 zfill8_zero)
next
  show "256 * group_value ''00000001'' + group_value ''00000000'' = 256 + 0"
    by (simp add: group_value_def)
qed

theorem unlabelled_lines_contribute_nothing_witness:
  "\<not> has_label ascii_tables (ustr ''REM'') \<and>
   Extract_Number_String ascii_tables (ustr ''REM'') = (None, ustr ''REM'') \<and>
   Create_BinData ascii_tables (ustr ''REM'' @ [10] @ ustr ''10 A'' @ [10] @ ustr '' 5 X'' @ [10])
     = Create_BinData ascii_tables (ustr ''10 A'') \<and>
   list_all (\<lambda>l. \<not> has_label ascii_tables l) (split 10 (ustr ''REM'' @ [10] @ ustr '' 5 X'')) \<and>
   Create_BinData ascii_tables (ustr ''REM'' @ [10] @ ustr '' 5 X'')
     = Inr [''00000001'', ''00000000'', ''00000000'']"
proof -
  have a: "\<not> has_label ascii_tables (ustr ''REM'')" by code_simp
  have b: "join_lines (filter (has_label ascii_tables)
      (split 10 (ustr ''REM'' @ [10] @ ustr ''10 A'' @ [10] @ ustr '' 5 X'' @ [10]))) = ustr ''10 A''"
    by code_simp
  have c: "list_all (\<lambda>l. \<not> has_label ascii_tables l) (split 10 (ustr ''REM'' @ [10] @ ustr '' 5 X''))"
    by code_simp
  note t1 = unlabelled_lines_contribute_nothing [of ascii_tables "ustr ''REM''"
      "ustr ''REM'' @ [10] @ ustr ''10 A'' @ [10] @ ustr '' 5 X'' @ [10]"]
  note t2 = unlabelled_lines_contribute_nothing [of ascii_tables "ustr ''REM''"
      "ustr ''REM'' @ [10] @ ustr '' 5 X''"]
  from t1 a have e1: "Extract_Number_String ascii_tables (ustr ''REM'') = (None, ustr ''REM'')"
    by blast
  from t1 have e2: "Create_BinData ascii_tables
      (ustr ''REM'' @ [10] @ ustr ''10 A'' @ [10] @ ustr '' 5 X'' @ [10])
      = Create_BinData ascii_tables (ustr ''10 A'')"
    unfolding b by blast
  from t2 c have e3: "Create_BinData ascii_tables (ustr ''REM'' @ [10] @ ustr '' 5 X'')
      = Inr [''00000001'', ''00000000'', ''00000000'']"
    by blast
  from a e1 e2 c e3 show ?thesis by blast
qed

section \<open>Labelled lines\<close>









section \<open>Labels beyond 16 bits\<close>




section \<open>The size header\<close>








section \<open>The width of the groups\<close>












section \<open>The frame encoder\<close>

lemma import_module_eq: "import_module = Inr (module_globals, module_store)"
  by (simp add: import_module_def default_settings_def make_square_wave_def bytearray_of_int_def
      int_of_quotient_def repeat_def new_bytearray_def module_globals_def module_store_def
      concat_replicate_single)

lemma int_of_char_binary:
  "int_of_char CHR ''0'' = Inr 0" "int_of_char CHR ''1'' = Inr 1"
  by (simp_all add: int_of_char_def)

lemma pulse_of_append:
  "one_pulse g < length s \<Longrightarrow> zero_pulse g < length s \<Longrightarrow> pulse_of g (s @ t) b = pulse_of g s b"
  by (simp add: pulse_of_def nth_append)

lemma pulse_of_update:
  "encoded \<noteq> one_pulse g \<Longrightarrow> encoded \<noteq> zero_pulse g \<Longrightarrow>
   pulse_of g (s[encoded := v]) b = pulse_of g s b"
  by (simp add: pulse_of_def)

lemma bits_loop_eq:
  assumes "encoded < length s" and "encoded \<noteq> one_pulse g" and "encoded \<noteq> zero_pulse g"
    and "list_all (\<lambda>c. c = CHR ''0'' \<or> c = CHR ''1'') bs"
  shows "bits_loop g encoded bs (s, p) =
    Inr (s[encoded := s ! encoded @ concat (map (\<lambda>c. pulse_of g s (c = CHR ''1'')) bs)],
         p + int (ones_count bs))"
  using assms
proof (induction bs arbitrary: s p)
  case Nil
  then show ?case by (simp add: ones_count_def)
next
  case (Cons c cs)
  let ?s' = "s[encoded := s ! encoded @ pulse_of g s (c = CHR ''1'')]"
  from Cons.prems have c: "c = CHR ''0'' \<or> c = CHR ''1''"
    and cs: "list_all (\<lambda>c. c = CHR ''0'' \<or> c = CHR ''1'') cs" by simp_all
  have len: "encoded < length ?s'" using Cons.prems(1) by simp
  have IH: "bits_loop g encoded cs (?s', q) =
    Inr (?s'[encoded := ?s' ! encoded @ concat (map (\<lambda>c. pulse_of g ?s' (c = CHR ''1'')) cs)],
         q + int (ones_count cs))" for q
    using len Cons.prems(2,3) cs by (rule Cons.IH)
  have same: "pulse_of g ?s' b = pulse_of g s b" for b
    using Cons.prems(2,3) by (rule pulse_of_update)
  have step: "bits_loop g encoded (c # cs) (s, p) =
      bits_loop g encoded cs (?s', p + (if c = CHR ''1'' then 1 else 0))"
    using c by (auto simp: int_of_char_binary extend_bytearray_def pulse_of_def)
  show ?case
    unfolding step IH same using Cons.prems(1)
    by (simp add: ones_count_def)
qed

lemma is_even_int: "is_even (int n) = even n"
  by (simp add: is_even_def even_iff_mod_2_eq_zero [symmetric])

lemma zero_or_even: "(n = 0 \<or> even n) = even (n::nat)"
  by auto

lemma Encode_Data_eq:
  assumes "one_pulse g < length s" and "zero_pulse g < length s"
    and "list_all (\<lambda>c. c = CHR ''0'' \<or> c = CHR ''1'') bs"
  shows "Encode_Data g s bs = Inr (s @ [concat (spec_frame g s bs)], length s)"
proof -
  let ?start = "pulse_of g s (STARTBIT g \<noteq> 0)"
  let ?s1 = "s @ [?start]"
  have alloc: "(if STARTBIT g = 0 then new_bytearray s (s ! zero_pulse g)
                else new_bytearray s (s ! one_pulse g)) = (?s1, length s)"
    by (simp add: new_bytearray_def pulse_of_def)
  have ne: "length s \<noteq> one_pulse g" "length s \<noteq> zero_pulse g" using assms(1,2) by simp_all
  have "length s < length ?s1" by simp
  then have loop: "bits_loop g (length s) bs (?s1, 0) =
    Inr (?s1[length s := ?s1 ! length s @ concat (map (\<lambda>c. pulse_of g ?s1 (c = CHR ''1'')) bs)],
         0 + int (ones_count bs))"
    using ne assms(3) by (rule bits_loop_eq)
  have p1: "pulse_of g ?s1 b = pulse_of g s b" for b
    using assms(1,2) by (rule pulse_of_append)
  let ?data = "concat (map (\<lambda>c. pulse_of g s (c = CHR ''1'')) bs)"
  let ?s2 = "s @ [?start @ ?data]"
  have s2: "?s1[length s := ?s1 ! length s @ concat (map (\<lambda>c. pulse_of g ?s1 (c = CHR ''1'')) bs)] = ?s2"
    by (simp add: p1)
  have p2: "pulse_of g ?s2 b = pulse_of g s b" for b
    using assms(1,2) by (rule pulse_of_append)
  have reads: "?s2 ! one_pulse g = pulse_of g s True" "?s2 ! zero_pulse g = pulse_of g s False"
    using p2 [of True] p2 [of False] by (simp_all add: pulse_of_def)
  note loop' = loop [unfolded s2]
  have res: "Encode_Data g s bs =
      Inr (extend_bytearray ?s2 (length s) (pulse_of g s (spec_parity_bit g bs)), length s)"
    unfolding Encode_Data_def alloc
    by (simp add: loop' reads is_even_int zero_or_even spec_parity_bit_def)
  have final: "extend_bytearray ?s2 (length s) v = s @ [?start @ ?data @ v]" for v
    by (simp add: extend_bytearray_def)
  show ?thesis
    unfolding res final by (simp add: spec_frame_def)
qed

lemma length_spec_frame: "length (spec_frame g s bs) = length bs + 2"
  by (simp add: spec_frame_def)

subsection \<open>Frames and parity\<close>

lemma byte_group_binary:
  "is_byte_group bs \<Longrightarrow> list_all (\<lambda>c. c = CHR ''0'' \<or> c = CHR ''1'') bs"
  by (simp add: is_byte_group_def)

text \<open>
  Claim C3. For every 8-bit ByteGroup, \<open>Encode_Data\<close> returns a new bytearray that is
  the concatenation of exactly 10 pulses: the start pulse (the zero pulse if \<open>STARTBIT\<close>
  is 0, else the one pulse), the pulses of the 8 data bits in order, most significant
  first (the one pulse for 1, the zero pulse otherwise), and one parity pulse; there is
  no stop pulse. It has no side effect: the store afterwards is the store before with
  the new bytearray added, so that every bytearray that existed, the two cached pulses
  among them, is unchanged.
\<close>

theorem frame_is_ten_pulses:
  assumes "one_pulse g < length s" and "zero_pulse g < length s" and "is_byte_group bs"
  shows "Encode_Data g s bs = Inr (s @ [concat (spec_frame g s bs)], length s) \<and>
    length (spec_frame g s bs) = 10 \<and>
    spec_frame g s bs ! 0 = (if STARTBIT g = 0 then s ! zero_pulse g else s ! one_pulse g) \<and>
    (\<forall>i<8. spec_frame g s bs ! (i + 1) =
       (if bs ! i = CHR ''1'' then s ! one_pulse g else s ! zero_pulse g)) \<and>
    (spec_frame g s bs ! 9 = s ! one_pulse g \<or> spec_frame g s bs ! 9 = s ! zero_pulse g)"
proof -
  from assms(3) have len: "length bs = 8" by (simp add: is_byte_group_def)
  have "Encode_Data g s bs = Inr (s @ [concat (spec_frame g s bs)], length s)"
    using assms(1,2) byte_group_binary [OF assms(3)] by (rule Encode_Data_eq)
  moreover have "length (spec_frame g s bs) = 10" using len by (simp add: length_spec_frame)
  moreover have "spec_frame g s bs ! 0 = (if STARTBIT g = 0 then s ! zero_pulse g else s ! one_pulse g)"
    by (simp add: spec_frame_def pulse_of_def)
  moreover have "\<forall>i<8. spec_frame g s bs ! (i + 1) =
       (if bs ! i = CHR ''1'' then s ! one_pulse g else s ! zero_pulse g)"
    using len by (simp add: spec_frame_def pulse_of_def nth_append)
  moreover have "spec_frame g s bs ! 9 = pulse_of g s (spec_parity_bit g bs)"
    using len by (simp add: spec_frame_def nth_append)
  then have "spec_frame g s bs ! 9 = s ! one_pulse g \<or> spec_frame g s bs ! 9 = s ! zero_pulse g"
    by (simp add: pulse_of_def)
  ultimately show ?thesis by blast
qed

theorem frame_is_ten_pulses_witness:
  "one_pulse module_globals < length module_store \<and>
   zero_pulse module_globals < length module_store \<and>
   is_byte_group ''01000001'' \<and>
   Encode_Data module_globals module_store ''01000001'' =
     Inr (module_store @
            [concat [module_store ! 1, module_store ! 1, module_store ! 0, module_store ! 1,
                     module_store ! 1, module_store ! 1, module_store ! 1, module_store ! 1,
                     module_store ! 0, module_store ! 0]], 2)"
proof -
  have a: "one_pulse module_globals < length module_store"
    "zero_pulse module_globals < length module_store"
    by (simp_all add: module_globals_def module_store_def)
  have b: "is_byte_group ''01000001''" by (simp add: is_byte_group_def)
  have f: "spec_frame module_globals module_store ''01000001'' =
      [module_store ! 1, module_store ! 1, module_store ! 0, module_store ! 1,
       module_store ! 1, module_store ! 1, module_store ! 1, module_store ! 1,
       module_store ! 0, module_store ! 0]"
    by (simp add: spec_frame_def pulse_of_def spec_parity_bit_def ones_count_def module_globals_def)
  have l: "length module_store = 2" by (simp add: module_store_def)
  from frame_is_ten_pulses [OF a b] a b show ?thesis unfolding f l by blast
qed

text \<open>
  Claim C2. For every 8-bit ByteGroup and both parity modes, \<open>Encode_Data\<close> ends the frame
  with exactly one parity pulse, the pulse of the parity bit, and the parity relation
  holds: in odd mode (\<open>PARITY = 0\<close>) the count of 1 data bits plus the parity bit is odd,
  in even mode (every other value of \<open>PARITY\<close>, 1 among them) that sum is even.
\<close>

theorem parity_relation:
  assumes "one_pulse g < length s" and "zero_pulse g < length s" and "is_byte_group bs"
  shows "Encode_Data g s bs =
      Inr (s @ [pulse_of g s (STARTBIT g \<noteq> 0)
                @ concat (map (\<lambda>c. pulse_of g s (c = CHR ''1'')) bs)
                @ pulse_of g s (spec_parity_bit g bs)], length s) \<and>
    (PARITY g = 0 \<longrightarrow> odd (ones_count bs + of_bool (spec_parity_bit g bs))) \<and>
    (PARITY g \<noteq> 0 \<longrightarrow> even (ones_count bs + of_bool (spec_parity_bit g bs)))"
proof -
  have "Encode_Data g s bs = Inr (s @ [concat (spec_frame g s bs)], length s)"
    using assms(1,2) byte_group_binary [OF assms(3)] by (rule Encode_Data_eq)
  then have "Encode_Data g s bs =
      Inr (s @ [pulse_of g s (STARTBIT g \<noteq> 0)
                @ concat (map (\<lambda>c. pulse_of g s (c = CHR ''1'')) bs)
                @ pulse_of g s (spec_parity_bit g bs)], length s)"
    by (simp add: spec_frame_def)
  moreover have "PARITY g = 0 \<longrightarrow> odd (ones_count bs + of_bool (spec_parity_bit g bs))"
    by (simp add: spec_parity_bit_def)
  moreover have "PARITY g \<noteq> 0 \<longrightarrow> even (ones_count bs + of_bool (spec_parity_bit g bs))"
    by (simp add: spec_parity_bit_def)
  ultimately show ?thesis by blast
qed

theorem parity_relation_witness:
  "one_pulse module_globals < length module_store \<and>
   zero_pulse module_globals < length module_store \<and>
   is_byte_group ''01000001'' \<and> is_byte_group ''00000001'' \<and>
   PARITY module_globals = 0 \<and> ones_count ''01000001'' = 2 \<and>
   spec_parity_bit module_globals ''01000001'' \<and>
   odd (ones_count ''01000001'' + of_bool (spec_parity_bit module_globals ''01000001'')) \<and>
   PARITY (module_globals\<lparr>PARITY := 1\<rparr>) \<noteq> 0 \<and> ones_count ''00000001'' = 1 \<and>
   spec_parity_bit (module_globals\<lparr>PARITY := 1\<rparr>) ''00000001'' \<and>
   even (ones_count ''00000001''
         + of_bool (spec_parity_bit (module_globals\<lparr>PARITY := 1\<rparr>) ''00000001''))"
proof -
  have a: "one_pulse module_globals < length module_store"
    "zero_pulse module_globals < length module_store"
    by (simp_all add: module_globals_def module_store_def)
  have a': "one_pulse (module_globals\<lparr>PARITY := 1\<rparr>) < length module_store"
    "zero_pulse (module_globals\<lparr>PARITY := 1\<rparr>) < length module_store"
    by (simp_all add: module_globals_def module_store_def)
  have b: "is_byte_group ''01000001''" "is_byte_group ''00000001''"
    by (simp_all add: is_byte_group_def)
  have p: "PARITY module_globals = 0" "PARITY (module_globals\<lparr>PARITY := 1\<rparr>) \<noteq> 0"
    by (simp_all add: module_globals_def)
  have c: "ones_count ''01000001'' = 2" "ones_count ''00000001'' = 1"
    by (simp_all add: ones_count_def)
  have q: "spec_parity_bit module_globals ''01000001''"
    "spec_parity_bit (module_globals\<lparr>PARITY := 1\<rparr>) ''00000001''"
    by (simp_all add: spec_parity_bit_def c p)
  from parity_relation [OF a b(1)] p(1)
  have o: "odd (ones_count ''01000001'' + of_bool (spec_parity_bit module_globals ''01000001''))"
    by blast
  from parity_relation [OF a' b(2)] p(2)
  have e: "even (ones_count ''00000001''
      + of_bool (spec_parity_bit (module_globals\<lparr>PARITY := 1\<rparr>) ''00000001''))"
    by blast
  from a b p c q o e show ?thesis by blast
qed

section \<open>The sample stream\<close>

lemma spec_frame_append:
  "one_pulse g < length s \<Longrightarrow> zero_pulse g < length s \<Longrightarrow>
   spec_frame g (s @ t) bs = spec_frame g s bs"
  by (simp add: spec_frame_def pulse_of_append)

lemma encoded_frame_eq:
  assumes "one_pulse g < length s" and "zero_pulse g < length s"
    and "list_all (\<lambda>c. c = CHR ''0'' \<or> c = CHR ''1'') bs"
  shows "encoded_frame g s bs = concat (spec_frame g s bs)"
  by (simp add: encoded_frame_def Encode_Data_eq [OF assms])

lemma data_loop_eq:
  assumes "one_pulse g < length s" and "zero_pulse g < length s"
    and "list_all (list_all (\<lambda>c. c = CHR ''0'' \<or> c = CHR ''1'')) bss"
  shows "data_loop g bss (s, w) =
    Inr (s @ map (\<lambda>bs. concat (spec_frame g s bs)) bss,
         w\<lparr>frames := frames w @ concat (map (\<lambda>bs. concat (spec_frame g s bs)) bss)\<rparr>)"
  using assms
proof (induction bss arbitrary: s w)
  case Nil
  then show ?case by simp
next
  case (Cons bs bss)
  let ?f = "concat (spec_frame g s bs)"
  let ?s' = "s @ [?f]"
  from Cons.prems have b: "list_all (\<lambda>c. c = CHR ''0'' \<or> c = CHR ''1'') bs"
    and r: "list_all (list_all (\<lambda>c. c = CHR ''0'' \<or> c = CHR ''1'')) bss" by simp_all
  have enc: "Encode_Data g s bs = Inr (?s', length s)"
    using Cons.prems(1,2) b by (rule Encode_Data_eq)
  have refs: "one_pulse g < length ?s'" "zero_pulse g < length ?s'"
    using Cons.prems(1,2) by simp_all
  have IH: "data_loop g bss (?s', v) =
    Inr (?s' @ map (\<lambda>bs. concat (spec_frame g ?s' bs)) bss,
         v\<lparr>frames := frames v @ concat (map (\<lambda>bs. concat (spec_frame g ?s' bs)) bss)\<rparr>)" for v
    using refs r by (rule Cons.IH)
  have same: "spec_frame g ?s' x = spec_frame g s x" for x
    using Cons.prems(1,2) by (rule spec_frame_append)
  show ?case
    by (simp add: enc IH same writeframes_def)
qed

lemma trailer_loop_3:
  "trailer_loop g s [0..<3] w = w\<lparr>frames := frames w @ concat (replicate 3 (s ! zero_pulse g))\<rparr>"
proof -
  have "[0..<3] = [0, 1, 2]" by (simp add: upt_rec)
  then show ?thesis by (simp add: writeframes_def numeral_3_eq_3)
qed

lemma leader_count:
  assumes "0 < a" and "0 < n"
  shows "int_of_quotient a (int n) = \<lfloor>real_of_int a / real n\<rfloor>"
proof -
  have "\<lfloor>real_of_int a / real_of_int (int n)\<rfloor> = a div int n"
    by (rule floor_divide_of_int_eq)
  then show ?thesis using assms by (simp add: int_of_quotient_def)
qed

lemma Write_Wav_eq:
  assumes "one_pulse g < length s" and "zero_pulse g < length s"
    and "0 < FRAMERATE g" and "s ! one_pulse g \<noteq> []"
    and "list_all (list_all (\<lambda>c. c = CHR ''0'' \<or> c = CHR ''1'')) bss"
  shows "Write_Wav g s bss =
    Inr (s @ map (\<lambda>bs. concat (spec_frame g s bs)) bss,
         \<lparr>nchannels = 1, sampwidth = 1, framerate = FRAMERATE g,
          frames =
            concat (replicate (nat (\<lfloor>real_of_int (FRAMERATE g) / real (length (s ! one_pulse g))\<rfloor>
                                      * LEADER g)) (s ! one_pulse g))
            @ concat (map (\<lambda>bs. concat (spec_frame g s bs)) bss)
            @ concat (replicate 3 (s ! zero_pulse g))\<rparr>)"
proof -
  from assms(4) have n: "0 < length (s ! one_pulse g)" by simp
  have z: "(s @ t) ! zero_pulse g = s ! zero_pulse g" for t
    using assms(2) by (simp add: nth_append)
  show ?thesis
    using assms(3,4)
    by (simp add: Write_Wav_def Let_def data_loop_eq [OF assms(1,2,5)] trailer_loop_3 z
        writeframes_def repeat_def leader_count [OF assms(3) n])
qed

text \<open>
  Claim C5. The sample stream that \<open>Write_Wav\<close> writes is, in order: the leader, the
  one pulse repeated \<open>floor(FRAMERATE / len(one_pulse)) * LEADER\<close> times; then, for
  every group of the binary data in order, the bytearray that \<open>Encode_Data\<close> returns
  for it; then exactly 3 raw zero pulses; and nothing else.
\<close>

theorem wav_stream_layout:
  assumes "one_pulse g < length s" and "zero_pulse g < length s"
    and "0 < FRAMERATE g" and "s ! one_pulse g \<noteq> []"
    and "list_all (list_all (\<lambda>c. c = CHR ''0'' \<or> c = CHR ''1'')) Binary_Data"
  shows "\<exists>s' w. Write_Wav g s Binary_Data = Inr (s', w) \<and>
    frames w =
      concat (replicate (nat (\<lfloor>real_of_int (FRAMERATE g) / real (length (s ! one_pulse g))\<rfloor>
                                * LEADER g)) (s ! one_pulse g))
      @ concat (map (encoded_frame g s) Binary_Data)
      @ concat (replicate 3 (s ! zero_pulse g)) \<and>
    nchannels w = 1 \<and> sampwidth w = 1 \<and> framerate w = FRAMERATE g"
proof -
  have "encoded_frame g s bs = concat (spec_frame g s bs)" if "bs \<in> set Binary_Data" for bs
    using that assms(5) by (simp add: list_all_iff encoded_frame_eq [OF assms(1,2)])
  then have eq: "map (encoded_frame g s) Binary_Data
      = map (\<lambda>bs. concat (spec_frame g s bs)) Binary_Data"
    by (simp cong: map_cong)
  show ?thesis
    unfolding eq by (simp add: Write_Wav_eq [OF assms])
qed

theorem wav_stream_layout_witness:
  "one_pulse module_globals < length module_store \<and>
   zero_pulse module_globals < length module_store \<and>
   0 < FRAMERATE module_globals \<and> module_store ! one_pulse module_globals \<noteq> [] \<and>
   list_all (list_all (\<lambda>c. c = CHR ''0'' \<or> c = CHR ''1'')) [''00000001'', ''000000000''] \<and>
   (\<exists>s' w. Write_Wav module_globals module_store [''00000001'', ''000000000''] = Inr (s', w) \<and>
      frames w =
        concat (replicate 38584 (module_store ! 0))
        @ (encoded_frame module_globals module_store ''00000001''
           @ encoded_frame module_globals module_store ''000000000'')
        @ (module_store ! 1 @ module_store ! 1 @ module_store ! 1))"
proof -
  have a: "one_pulse module_globals < length module_store"
    "zero_pulse module_globals < length module_store"
    by (simp_all add: module_globals_def module_store_def)
  have f: "0 < FRAMERATE module_globals" by (simp add: module_globals_def)
  have n: "module_store ! one_pulse module_globals \<noteq> []"
    by (simp add: module_globals_def module_store_def)
  have b: "list_all (list_all (\<lambda>c. c = CHR ''0'' \<or> c = CHR ''1'')) [''00000001'', ''000000000'']"
    by simp
  have k: "nat (\<lfloor>real_of_int (FRAMERATE module_globals)
                 / real (length (module_store ! 0))\<rfloor>
               * LEADER module_globals) = 38584"
    by (simp add: module_globals_def module_store_def)
  have r: "one_pulse module_globals = 0" "zero_pulse module_globals = 1"
    by (simp_all add: module_globals_def)
  from wav_stream_layout [OF a f n b]
  have "\<exists>s' w. Write_Wav module_globals module_store [''00000001'', ''000000000''] = Inr (s', w) \<and>
      frames w =
        concat (replicate 38584 (module_store ! 0))
        @ (encoded_frame module_globals module_store ''00000001''
           @ encoded_frame module_globals module_store ''000000000'')
        @ (module_store ! 1 @ module_store ! 1 @ module_store ! 1)"
    unfolding r k by (auto simp: numeral_3_eq_3)
  with a f n b show ?thesis by blast
qed

section \<open>The pulse generator\<close>








section \<open>Configurations with an empty half cycle\<close>












end
